theory Spec2Isabelle
  imports Main "HOL-Library.Word" "HOL-Library.Multiset"
begin

section \<open>Data model\<close>

text \<open>
  Go errors are values. The constructors below are the error values that the two source
  files create themselves (with their messages); an error handed back by a collaborator
  (the bucketing engine, encoding/json, net/http) is \<open>ErrExternal\<close> with its message.
\<close>

datatype error =
    ErrClosed               \<comment> \<open>QueueEvent on a closed queue\<close>
  | ErrQueueFull            \<comment> \<open>QueueEvent over capacity\<close>
  | ErrAggregateQueueFull   \<comment> \<open>QueueAggregateEvent over capacity\<close>
  | ErrEventTypeRequired    \<comment> \<open>Track with an empty event type\<close>
  | ErrNilResponse          \<comment> \<open>callAPI gave neither a response nor an error\<close>
  | Err5xx                  \<comment> \<open>a response with status 500 or more, to be retried\<close>
  | ErrMaxRetriesReached    \<comment> \<open>the error of try.Do itself\<close>
  | ErrGeneric string string  \<comment> \<open>GenericError of handleError: body and error text\<close>
  | ErrExternal string

text \<open>The message of an error (its method Error), as the sources spell it.\<close>

fun Error :: "error \<Rightarrow> string" where
  "Error ErrClosed = ''DevCycle client was closed, no more events can be tracked.''"
| "Error ErrQueueFull = ''Max event queue size reached, dropping event''"
| "Error ErrAggregateQueueFull = ''Max event queue size reached, dropping aggregate event''"
| "Error ErrEventTypeRequired = ''event type is required''"
| "Error ErrNilResponse = ''Nil httpResponse''"
| "Error Err5xx = ''5xx error on request''"
| "Error ErrMaxRetriesReached = ''exceeded retry limit''"
| "Error (ErrGeneric body msg) = msg"
| "Error (ErrExternal msg) = msg"

text \<open>
  The declarations of DVCUser, BucketedUserConfig, FlushPayload and DVCOptions are not in
  the two source files; the model keeps the fields that the code reads. A user and a
  bucketed configuration are only serialised or passed on, so they are opaque strings.
\<close>

type_synonym DVCUser = string
type_synonym BucketedUserConfig = string

record DVCEvent =
  Type' :: string   \<comment> \<open>the field Type_ of the source\<close>

record FlushPayload =
  PayloadId :: string
  Records :: "string list"

record DVCOptions =
  EnableCloudBucketing :: bool
  DisableAutomaticEventLogging :: bool
  DisableCustomEventLogging :: bool
  FlushEventQueueSize :: int
  MaxEventQueueSize :: int

text \<open>
  A Go slice of strings is either nil or a (possibly empty) sequence; reportPayloadSuccess
  and reportPayloadFailure test for nil, so the difference is kept: \<open>None\<close> is the nil
  slice. \<open>append\<close> on a nil slice gives a non-nil one.
\<close>

type_synonym slice = "string list option"

definition elems :: "slice \<Rightarrow> string list" where
  "elems s = (case s of None \<Rightarrow> [] | Some xs \<Rightarrow> xs)"

definition append_slice :: "slice \<Rightarrow> string \<Rightarrow> slice" where
  "append_slice s x = Some (elems s @ [x])"

record FlushResult =
  SuccessPayloads :: slice
  FailurePayloads :: slice
  FailureWithRetryPayloads :: slice

text \<open>
  Every call that the event queue makes on a collaborator, in the order it makes it: the
  methods of the bucketing engine (e.localBucketing), of a pool object, and the HTTP client.
\<close>

datatype call =
    LB_checkEventQueueSize
  | LB_startFlushEvents
  | LB_finishFlushEvents
  | LB_flushEventQueue
  | LB_HandleFlushResults FlushResult
  | LB_queueEvent string string
  | LB_queueAggregateEvent string BucketedUserConfig
  | LB_onPayloadSuccess string
  | LB_onPayloadFailure string bool
  | Pool_FlushEvents nat
  | Pool_HandleFlushResults nat FlushResult
  | HTTP_Do FlushPayload
  | FlushStop_send

text \<open>
  What happens to one batch on its way to the events endpoint, in the order in which
  flushEventPayload can fail: json.Marshal of the body, http.NewRequest, HTTPClient.Do,
  io.ReadAll of the response body, and at last a response with its status code and body.
\<close>

datatype dispatch =
    MarshalFailed
  | NewRequestFailed
  | DoFailed
  | ReadFailed int
  | Responded int string

text \<open>
  The collaborators are parameters of the model. Each answer may depend on everything the
  queue has done so far (the calls made up to that moment), which covers every
  deterministic engine, pool and endpoint.
\<close>

record world =
  lb_checkEventQueueSize :: "call list \<Rightarrow> error + int"
  lb_flushEventQueue :: "call list \<Rightarrow> error + FlushPayload list"
  lb_queueEvent :: "call list \<Rightarrow> string \<Rightarrow> string \<Rightarrow> error option"
  lb_queueAggregateEvent :: "call list \<Rightarrow> string \<Rightarrow> BucketedUserConfig \<Rightarrow> error option"
  pool_all :: "nat list"
  pool_FlushEvents :: "call list \<Rightarrow> nat \<Rightarrow> error + FlushPayload list"
  pool_result :: "error option list \<Rightarrow> error option"
  send :: "call list \<Rightarrow> FlushPayload \<Rightarrow> dispatch"
  marshal_user :: "DVCUser \<Rightarrow> error + string"
  marshal_event :: "DVCEvent \<Rightarrow> error + string"

text \<open>
  The EventQueue struct of a queue that initialize has given an engine (localBucketing is
  not nil). The two atomic.Int32 counters are 32-bit words (Add wraps); the context, the
  configuration and the channel carry no state that the functions below read. \<open>calls\<close>
  is the record of the calls made on the collaborators so far. Log lines are left out.
\<close>

record EventQueue =
  options :: DVCOptions
  closed :: bool
  eventsFlushed :: "32 word"
  eventsReported :: "32 word"
  calls :: "call list"

definition did :: "call \<Rightarrow> EventQueue \<Rightarrow> EventQueue" where
  "did c e = e\<lparr>calls := calls e @ [c]\<rparr>"

section \<open>eventqueue.go\<close>

type_synonym accs = "slice \<times> slice \<times> slice"

definition reportPayloadSuccess :: "FlushPayload \<Rightarrow> slice \<Rightarrow> EventQueue \<Rightarrow> slice \<times> EventQueue" where
  "reportPayloadSuccess payload successPayloads e =
     (if successPayloads \<noteq> None
      then (append_slice successPayloads (PayloadId payload), e)
      else (successPayloads, did (LB_onPayloadSuccess (PayloadId payload)) e))"

definition reportPayloadFailure ::
  "FlushPayload \<Rightarrow> bool \<Rightarrow> slice \<Rightarrow> slice \<Rightarrow> EventQueue \<Rightarrow> (slice \<times> slice) \<times> EventQueue" where
  "reportPayloadFailure payload retry failurePayloads retryableFailurePayloads e =
     (if failurePayloads \<noteq> None
      then (if retry
            then ((failurePayloads, append_slice retryableFailurePayloads (PayloadId payload)), e)
            else ((append_slice failurePayloads (PayloadId payload), retryableFailurePayloads), e))
      else ((failurePayloads, retryableFailurePayloads),
            did (LB_onPayloadFailure (PayloadId payload) retry) e))"

definition fail_with :: "FlushPayload \<Rightarrow> bool \<Rightarrow> accs \<Rightarrow> EventQueue \<Rightarrow> accs \<times> EventQueue" where
  "fail_with payload retry acc e =
     (case acc of (successes, failures, retryableFailures) \<Rightarrow>
        (case reportPayloadFailure payload retry failures retryableFailures e of
           ((f, r), e') \<Rightarrow> ((successes, f, r), e')))"

definition flushEventPayload :: "world \<Rightarrow> FlushPayload \<Rightarrow> accs \<Rightarrow> EventQueue \<Rightarrow> accs \<times> EventQueue" where
  "flushEventPayload w payload acc e =
     (case send w (calls e) payload of
        MarshalFailed \<Rightarrow> fail_with payload False acc e
      | NewRequestFailed \<Rightarrow> fail_with payload False acc e
      | DoFailed \<Rightarrow> fail_with payload False acc (did (HTTP_Do payload) e)
      | ReadFailed statusCode \<Rightarrow> fail_with payload False acc (did (HTTP_Do payload) e)
      | Responded statusCode responseBody \<Rightarrow>
          (if statusCode \<ge> 500 then fail_with payload True acc (did (HTTP_Do payload) e)
           else if statusCode \<ge> 400 then fail_with payload False acc (did (HTTP_Do payload) e)
           else if statusCode = 201 then
             (case acc of (successes, failures, retryableFailures) \<Rightarrow>
                (case reportPayloadSuccess payload successes (did (HTTP_Do payload) e) of
                   (s, e') \<Rightarrow>
                     ((s, failures, retryableFailures),
                      e'\<lparr>eventsReported := eventsReported e' + 1\<rparr>)))
           else fail_with payload False acc (did (HTTP_Do payload) e)))"

fun flush_each :: "world \<Rightarrow> FlushPayload list \<Rightarrow> accs \<Rightarrow> EventQueue \<Rightarrow> accs \<times> EventQueue" where
  "flush_each w [] acc e = (acc, e)"
| "flush_each w (payload # rest) acc e =
     (case flushEventPayload w payload acc e of (acc', e') \<Rightarrow> flush_each w rest acc' e')"

definition flushEventPayloads ::
  "world \<Rightarrow> FlushPayload list \<Rightarrow> EventQueue \<Rightarrow> (FlushResult \<times> error option) \<times> EventQueue" where
  "flushEventPayloads w payloads e =
     (case flush_each w payloads (Some [], Some [], Some [])
             (e\<lparr>eventsFlushed := eventsFlushed e + of_nat (length payloads)\<rparr>) of
        ((successes, failures, retryableFailures), e') \<Rightarrow>
          ((\<lparr>SuccessPayloads = successes, FailurePayloads = failures,
             FailureWithRetryPayloads = retryableFailures\<rparr>, None), e'))"

text \<open>
  Modelled from the spec: BucketingPool.ProcessAll is not in the source files. The spec
  (section 6) has it apply the operation to every pooled engine, a member's failure not
  stopping the others, and return an error or none; how the members' results combine into
  the one returned is left to the parameter \<open>pool_result\<close>.
\<close>

fun process_each ::
  "(nat \<Rightarrow> EventQueue \<Rightarrow> error option \<times> EventQueue) \<Rightarrow> nat list \<Rightarrow> EventQueue
     \<Rightarrow> error option list \<times> EventQueue" where
  "process_each operation [] e = ([], e)"
| "process_each operation (object # rest) e =
     (case operation object e of (err, e') \<Rightarrow>
        (case process_each operation rest e' of (errs, e'') \<Rightarrow> (err # errs, e'')))"

definition ProcessAll ::
  "world \<Rightarrow> (nat \<Rightarrow> EventQueue \<Rightarrow> error option \<times> EventQueue) \<Rightarrow> EventQueue
     \<Rightarrow> error option \<times> EventQueue" where
  "ProcessAll w operation e =
     (case process_each operation (pool_all w) e of (errs, e') \<Rightarrow> (pool_result w errs, e'))"

text \<open>The function literal that FlushEvents passes to ProcessAll.\<close>

definition flush_pool_object :: "world \<Rightarrow> nat \<Rightarrow> EventQueue \<Rightarrow> error option \<times> EventQueue" where
  "flush_pool_object w object e =
     (case pool_FlushEvents w (calls e) object of
        Inl err \<Rightarrow> (Some err, did (Pool_FlushEvents object) e)
      | Inr payloads \<Rightarrow>
          (case flushEventPayloads w payloads (did (Pool_FlushEvents object) e) of
             ((result, err), e') \<Rightarrow> (None, did (Pool_HandleFlushResults object result) e')))"

definition FlushEvents :: "world \<Rightarrow> EventQueue \<Rightarrow> error option \<times> EventQueue" where
  "FlushEvents w e =
     (case lb_flushEventQueue w (calls (did LB_startFlushEvents e)) of
        Inl err \<Rightarrow>
          (Some err, did LB_finishFlushEvents (did LB_flushEventQueue (did LB_startFlushEvents e)))
      | Inr payloads \<Rightarrow>
          (let e1 = did LB_flushEventQueue (did LB_startFlushEvents e);
               e2 = e1\<lparr>eventsFlushed := eventsFlushed e1 + of_nat (length payloads)\<rparr>
           in case flushEventPayloads w payloads e2 of
                ((result, Some err), e3) \<Rightarrow> (Some err, did LB_finishFlushEvents e3)
              | ((result, None), e3) \<Rightarrow>
                  (case ProcessAll w (flush_pool_object w) (did (LB_HandleFlushResults result) e3) of
                     (err, e4) \<Rightarrow> (err, did LB_finishFlushEvents e4))))"

definition checkEventQueueSize :: "world \<Rightarrow> EventQueue \<Rightarrow> (bool \<times> error option) \<times> EventQueue" where
  "checkEventQueueSize w e =
     (case lb_checkEventQueueSize w (calls e) of
        Inl err \<Rightarrow> ((False, Some err), did LB_checkEventQueueSize e)
      | Inr queueSize \<Rightarrow>
          (if queueSize \<ge> FlushEventQueueSize (options e) then
             (case FlushEvents w (did LB_checkEventQueueSize e) of
                (Some err, e') \<Rightarrow> ((True, Some err), e')
              | (None, e') \<Rightarrow>
                  (if queueSize \<ge> MaxEventQueueSize (options e') then ((True, None), e')
                   else ((False, None), e')))
           else ((False, None), did LB_checkEventQueueSize e)))"

definition QueueEvent :: "world \<Rightarrow> EventQueue \<Rightarrow> DVCUser \<Rightarrow> DVCEvent \<Rightarrow> error option \<times> EventQueue" where
  "QueueEvent w e user event =
     (if closed e then (Some ErrClosed, e)
      else
        (case checkEventQueueSize w e of
           ((q, err), e') \<Rightarrow>
             (if err \<noteq> None \<or> q then (Some ErrQueueFull, e')
              else if \<not> EnableCloudBucketing (options e') then
                (case marshal_user w user of
                   Inl err \<Rightarrow> (Some err, e')
                 | Inr userstring \<Rightarrow>
                     (case marshal_event w event of
                        Inl err \<Rightarrow> (Some err, e')
                      | Inr eventstring \<Rightarrow>
                          (lb_queueEvent w (calls e') userstring eventstring,
                           did (LB_queueEvent userstring eventstring) e')))
              else (None, e'))))"

text \<open>
  QueueAggregateEvent overwrites the error of json.Marshal with the engine's answer; a
  failed Marshal leaves the empty string to be passed on.
\<close>

definition QueueAggregateEvent ::
  "world \<Rightarrow> EventQueue \<Rightarrow> BucketedUserConfig \<Rightarrow> DVCEvent \<Rightarrow> error option \<times> EventQueue" where
  "QueueAggregateEvent w e config event =
     (case checkEventQueueSize w e of
        ((q, err), e') \<Rightarrow>
          (if err \<noteq> None \<or> q then (Some ErrAggregateQueueFull, e')
           else if \<not> EnableCloudBucketing (options e') then
             (let eventstring = (case marshal_event w event of Inl err \<Rightarrow> [] | Inr s \<Rightarrow> s)
              in (lb_queueAggregateEvent w (calls e') eventstring config,
                  did (LB_queueAggregateEvent eventstring config) e'))
           else (None, e')))"

definition Metrics :: "EventQueue \<Rightarrow> 32 word \<times> 32 word" where
  "Metrics e = (eventsFlushed e, eventsReported e)"

definition Close :: "world \<Rightarrow> EventQueue \<Rightarrow> error option \<times> EventQueue" where
  "Close w e = FlushEvents w ((did FlushStop_send e)\<lparr>closed := True\<rparr>)"

section \<open>client.go\<close>

record Response =
  StatusCode :: int
  Status :: string

datatype api_call =
    API_prepareRequest
  | API_callAPI
  | API_Sleep int           \<comment> \<open>time.Sleep of exponentialBackoff(attempt)\<close>

text \<open>
  What one pass through the function literal of performRequest meets: prepareRequest
  fails; callAPI returns an error; callAPI returns neither a response nor an error;
  reading the body of the response fails; or a response arrives with its body.
\<close>

datatype api_result =
    PrepareFailed error
  | CallFailed error
  | NilResponse
  | BodyReadFailed Response error
  | Received Response string

record cloud =
  api :: "api_call list \<Rightarrow> api_result"
  decode :: "string \<Rightarrow> error option"

text \<open>
  The variables that the function literal captures (httpResponse, responseBody) and the
  calls made so far.
\<close>

record request_state =
  requests :: "api_call list"
  httpResponse :: "Response option"
  responseBody :: "string option"

definition request_attempt :: "cloud \<Rightarrow> int \<Rightarrow> request_state \<Rightarrow> (bool \<times> error option) \<times> request_state" where
  "request_attempt cw attempt s =
     (case api cw (requests s) of
        PrepareFailed err \<Rightarrow>
          ((False, Some err), s\<lparr>requests := requests s @ [API_prepareRequest]\<rparr>)
      | CallFailed err \<Rightarrow>
          ((attempt \<le> 5, Some err),
           s\<lparr>requests := requests s @ [API_prepareRequest, API_callAPI, API_Sleep attempt],
             httpResponse := None\<rparr>)
      | NilResponse \<Rightarrow>
          ((attempt \<le> 5, Some ErrNilResponse),
           s\<lparr>requests := requests s @ [API_prepareRequest, API_callAPI, API_Sleep attempt],
             httpResponse := None\<rparr>)
      | BodyReadFailed r err \<Rightarrow>
          ((attempt \<le> 5, Some err),
           s\<lparr>requests := requests s @ [API_prepareRequest, API_callAPI, API_Sleep attempt],
             httpResponse := Some r, responseBody := None\<rparr>)
      | Received r body \<Rightarrow>
          (if StatusCode r \<ge> 500 \<and> attempt \<le> 5
           then ((attempt \<le> 5, Some Err5xx),
                 s\<lparr>requests := requests s @ [API_prepareRequest, API_callAPI, API_Sleep attempt],
                   httpResponse := Some r, responseBody := Some body\<rparr>)
           else ((attempt \<le> 5, None),
                 s\<lparr>requests := requests s @ [API_prepareRequest, API_callAPI],
                   httpResponse := Some r, responseBody := Some body\<rparr>)))"

text \<open>
  try.Do of the library github.com/matryer/try that client.go imports (the library is not
  part of the repository). The comment in performRequest describes it: it retries "as long
  as the bool is true and err is not nil", and "the attempt param is auto-incremented".
  The library starts with attempt 1 and gives up with its own error once the attempt
  number would pass MaxRetries, which is 10.
\<close>

definition MaxRetries :: int where
  "MaxRetries = 10"

function try_Do_from ::
  "(int \<Rightarrow> 's \<Rightarrow> (bool \<times> error option) \<times> 's) \<Rightarrow> int \<Rightarrow> 's \<Rightarrow> error option \<times> 's" where
  "try_Do_from fn attempt s =
     (case fn attempt s of
        ((cont, err), s') \<Rightarrow>
          (if \<not> cont \<or> err = None then (err, s')
           else if attempt + 1 > MaxRetries then (Some ErrMaxRetriesReached, s')
           else try_Do_from fn (attempt + 1) s'))"
  by pat_completeness auto
termination
  by (relation "measure (\<lambda>(fn, attempt, s). nat (MaxRetries + 1 - attempt))") auto

definition try_Do :: "(int \<Rightarrow> 's \<Rightarrow> (bool \<times> error option) \<times> 's) \<Rightarrow> 's \<Rightarrow> error option \<times> 's" where
  "try_Do fn s = try_Do_from fn 1 s"

definition performRequest ::
  "cloud \<Rightarrow> api_call list \<Rightarrow> (Response option \<times> string option \<times> error option) \<times> api_call list" where
  "performRequest cw reqs =
     (case try_Do (request_attempt cw)
             \<lparr>requests = reqs, httpResponse = None, responseBody = None\<rparr> of
        (Some err, s) \<Rightarrow> ((None, None, Some err), requests s)
      | (None, s) \<Rightarrow> ((httpResponse s, responseBody s, None), requests s))"

definition handleError :: "cloud \<Rightarrow> Response \<Rightarrow> string \<Rightarrow> error option" where
  "handleError cw r body =
     (case (if length body > 0 then decode cw body else None) of
        Some err \<Rightarrow> Some (ErrGeneric body (Error err))
      | None \<Rightarrow> (if StatusCode r \<ge> 500 then None else Some (ErrGeneric body (Status r))))"

text \<open>
  The DVCClient struct, with the fields that Track reads. eventQueue is a pointer that
  setLBClient leaves nil when the engine fails to start; calling QueueEvent through it
  is a nil dereference, and the result \<open>None\<close> of Track stands for that panic.
\<close>

record DVCClient =
  DevCycleOptions :: DVCOptions
  isInitialized :: bool
  eventQueue :: "EventQueue option"
  api_calls :: "api_call list"

definition Track ::
  "world \<Rightarrow> cloud \<Rightarrow> DVCClient \<Rightarrow> DVCUser \<Rightarrow> DVCEvent \<Rightarrow> (bool \<times> error option) option \<times> DVCClient" where
  "Track w cw c user event =
     (if DisableCustomEventLogging (DevCycleOptions c) then (Some (True, None), c)
      else if Type' event = [] then (Some (False, Some ErrEventTypeRequired), c)
      else if \<not> EnableCloudBucketing (DevCycleOptions c) then
        (if isInitialized c then
           (case eventQueue c of
              None \<Rightarrow> (None, c)
            | Some q \<Rightarrow>
                (case QueueEvent w q user event of
                   (err, q') \<Rightarrow> (Some (err = None, err), c\<lparr>eventQueue := Some q'\<rparr>)))
         else (Some (True, None), c))
      else
        (case performRequest cw (api_calls c) of
           ((r, rBody, Some err), reqs) \<Rightarrow> (Some (False, Some err), c\<lparr>api_calls := reqs\<rparr>)
         | ((None, rBody, None), reqs) \<Rightarrow> (None, c\<lparr>api_calls := reqs\<rparr>)
         | ((Some r, rBody, None), reqs) \<Rightarrow>
             (if StatusCode r < 300 then
                (case decode cw (case rBody of None \<Rightarrow> [] | Some b \<Rightarrow> b) of
                   None \<Rightarrow> (Some (False, None), c\<lparr>api_calls := reqs\<rparr>)
                 | Some err \<Rightarrow> (Some (True, None), c\<lparr>api_calls := reqs\<rparr>))
              else (Some (False, handleError cw r (case rBody of None \<Rightarrow> [] | Some b \<Rightarrow> b)),
                    c\<lparr>api_calls := reqs\<rparr>))))"

section \<open>Notions used to state the properties\<close>

text \<open>
  The outcome classification as the specification words it (section 4.2, rules 1 to 5 in
  order), to be compared with what flushEventPayload does. A failure to read the response
  body is a failure of the transport and falls under rule 1.
\<close>

datatype outcome = Succeeded | FailedPermanent | FailedRetryable

definition spec_classification :: "dispatch \<Rightarrow> outcome" where
  "spec_classification d =
     (case d of
        MarshalFailed \<Rightarrow> FailedPermanent
      | NewRequestFailed \<Rightarrow> FailedPermanent
      | DoFailed \<Rightarrow> FailedPermanent
      | ReadFailed status \<Rightarrow> FailedPermanent
      | Responded status body \<Rightarrow>
          (if status \<ge> 500 then FailedRetryable
           else if 400 \<le> status \<and> status < 500 then FailedPermanent
           else if status = 201 then Succeeded
           else FailedPermanent))"

text \<open>Whether the request left the process: HTTPClient.Do was called.\<close>

definition request_issued :: "dispatch \<Rightarrow> bool" where
  "request_issued d = (case d of MarshalFailed \<Rightarrow> False | NewRequestFailed \<Rightarrow> False | _ \<Rightarrow> True)"

text \<open>
  The two ways of reporting an outcome to the primary engine: one payload at a time
  (onPayloadSuccess, onPayloadFailure), or all at once (HandleFlushResults).
\<close>

fun per_payload_report :: "call \<Rightarrow> bool" where
  "per_payload_report (LB_onPayloadSuccess i) = True"
| "per_payload_report (LB_onPayloadFailure i retry) = True"
| "per_payload_report c = False"

fun aggregated_report :: "call \<Rightarrow> bool" where
  "aggregated_report (LB_HandleFlushResults r) = True"
| "aggregated_report c = False"

text \<open>The calls a client can make on an open or closed queue, and a sequence of them.\<close>

datatype operation =
    Op_QueueEvent DVCUser DVCEvent
  | Op_QueueAggregateEvent BucketedUserConfig DVCEvent
  | Op_FlushEvents
  | Op_Metrics

fun perform :: "world \<Rightarrow> operation \<Rightarrow> EventQueue \<Rightarrow> EventQueue" where
  "perform w (Op_QueueEvent user event) e = snd (QueueEvent w e user event)"
| "perform w (Op_QueueAggregateEvent config event) e = snd (QueueAggregateEvent w e config event)"
| "perform w Op_FlushEvents e = snd (FlushEvents w e)"
| "perform w Op_Metrics e = e"

fun perform_all :: "world \<Rightarrow> operation list \<Rightarrow> EventQueue \<Rightarrow> EventQueue" where
  "perform_all w [] e = e"
| "perform_all w (x # xs) e = perform_all w xs (perform w x e)"

text \<open>The number of requests sent by performRequest: the calls of callAPI.\<close>

definition attempts_made :: "api_call list \<Rightarrow> nat" where
  "attempts_made reqs = length (filter (\<lambda>c. c = API_callAPI) reqs)"

text \<open>
  The results of one attempt on which performRequest asks for another one: a transport
  failure, a nil response, a body that cannot be read, or a status of 500 or more.
\<close>

fun retry_condition :: "api_result \<Rightarrow> bool" where
  "retry_condition (PrepareFailed err) = False"
| "retry_condition (CallFailed err) = True"
| "retry_condition NilResponse = True"
| "retry_condition (BodyReadFailed r err) = True"
| "retry_condition (Received r body) = (StatusCode r \<ge> 500)"

section \<open>Concrete collaborators\<close>

definition options10_20 :: DVCOptions where
  "options10_20 = \<lparr>EnableCloudBucketing = False, DisableAutomaticEventLogging = False,
     DisableCustomEventLogging = False, FlushEventQueueSize = 10, MaxEventQueueSize = 20\<rparr>"

definition new_queue :: EventQueue where
  "new_queue = \<lparr>options = options10_20, closed = False, eventsFlushed = 0,
     eventsReported = 0, calls = []\<rparr>"

definition payload1 :: FlushPayload where
  "payload1 = \<lparr>PayloadId = ''p1'', Records = [''e1'', ''e2'']\<rparr>"

definition payload2 :: FlushPayload where
  "payload2 = \<lparr>PayloadId = ''p2'', Records = [''e3'']\<rparr>"

definition click :: DVCEvent where
  "click = \<lparr>Type' = ''click''\<rparr>"

text \<open>
  An engine that reports \<open>buffered h\<close> buffered events after the calls \<open>h\<close> and hands out the
  batches \<open>batches\<close> at the first drain and none afterwards, an empty pool, and an endpoint
  that answers the batch \<open>p\<close> with \<open>answer p\<close>.
\<close>

definition simple_world ::
  "(call list \<Rightarrow> int) \<Rightarrow> FlushPayload list \<Rightarrow> (FlushPayload \<Rightarrow> dispatch) \<Rightarrow> world" where
  "simple_world buffered batches answer =
     \<lparr>lb_checkEventQueueSize = (\<lambda>h. Inr (buffered h)),
      lb_flushEventQueue = (\<lambda>h. if LB_flushEventQueue \<in> set h then Inr [] else Inr batches),
      lb_queueEvent = (\<lambda>h u ev. None),
      lb_queueAggregateEvent = (\<lambda>h ev config. None),
      pool_all = [],
      pool_FlushEvents = (\<lambda>h object. Inr []),
      pool_result = (\<lambda>errs. None),
      send = (\<lambda>h p. answer p),
      marshal_user = (\<lambda>u. Inr u),
      marshal_event = (\<lambda>ev. Inr (Type' ev))\<rparr>"

text \<open>An endpoint that accepts every batch.\<close>

definition accepting_world :: "FlushPayload list \<Rightarrow> world" where
  "accepting_world batches = simple_world (\<lambda>h. 0) batches (\<lambda>p. Responded 201 [])"

text \<open>An endpoint that accepts the batch p1 and answers 503 to every other one.\<close>

definition mixed_world :: world where
  "mixed_world =
     simple_world (\<lambda>h. 0) [payload1, payload2]
       (\<lambda>p. if PayloadId p = ''p1'' then Responded 201 [] else Responded 503 ''busy'')"

text \<open>A queue that has been closed, with an engine that holds nothing.\<close>

definition closed_queue :: EventQueue where
  "closed_queue = snd (Close (accepting_world []) new_queue)"

text \<open>
  An engine that holds 25 events until it is drained and none from then on, with the
  thresholds 10 and 20 of \<open>options10_20\<close>.
\<close>

definition draining_world :: world where
  "draining_world =
     simple_world (\<lambda>h. if LB_flushEventQueue \<in> set h then 0 else 25) [] (\<lambda>p. Responded 201 [])"

text \<open>An API that never answers, and one that always answers 503.\<close>

definition unreachable_cloud :: cloud where
  "unreachable_cloud = \<lparr>api = (\<lambda>h. CallFailed (ErrExternal ''connection refused'')),
     decode = (\<lambda>b. None)\<rparr>"

definition unavailable_cloud :: cloud where
  "unavailable_cloud =
     \<lparr>api = (\<lambda>h. Received \<lparr>StatusCode = 503, Status = ''503 Service Unavailable''\<rparr> []),
      decode = (\<lambda>b. None)\<rparr>"

definition quiet_client :: DVCClient where
  "quiet_client =
     \<lparr>DevCycleOptions = options10_20\<lparr>DisableCustomEventLogging := True\<rparr>,
      isInitialized = True, eventQueue = Some new_queue, api_calls = []\<rparr>"

section \<open>Properties of the flush pipeline\<close>

text \<open>
  flushEventPayloads always hands non-nil accumulators to flushEventPayload. The lemmas
  below follow one batch, then a list of batches, then a whole flush, and record what each
  step keeps: the closed flag, the options, and which engine calls it adds.
\<close>

lemma did_simps [simp]:
  "calls (did c e) = calls e @ [c]"
  "closed (did c e) = closed e"
  "options (did c e) = options e"
  "eventsFlushed (did c e) = eventsFlushed e"
  "eventsReported (did c e) = eventsReported e"
  by (simp_all add: did_def)

lemma flushEventPayload_batched:
  "flushEventPayload w p (Some s, Some f, Some r) e =
     (case spec_classification (send w (calls e) p) of
        Succeeded \<Rightarrow>
          ((Some (s @ [PayloadId p]), Some f, Some r),
           (did (HTTP_Do p) e)\<lparr>eventsReported := eventsReported e + 1\<rparr>)
      | FailedPermanent \<Rightarrow>
          ((Some s, Some (f @ [PayloadId p]), Some r),
           if request_issued (send w (calls e) p) then did (HTTP_Do p) e else e)
      | FailedRetryable \<Rightarrow>
          ((Some s, Some f, Some (r @ [PayloadId p])), did (HTTP_Do p) e))"
  by (simp add: flushEventPayload_def fail_with_def reportPayloadFailure_def
      reportPayloadSuccess_def append_slice_def elems_def spec_classification_def
      request_issued_def split: dispatch.splits)

lemma flushEventPayload_immediate:
  "flushEventPayload w p (None, None, r) e =
     (case spec_classification (send w (calls e) p) of
        Succeeded \<Rightarrow>
          ((None, None, r),
           (did (LB_onPayloadSuccess (PayloadId p)) (did (HTTP_Do p) e))
             \<lparr>eventsReported := eventsReported e + 1\<rparr>)
      | FailedPermanent \<Rightarrow>
          ((None, None, r),
           did (LB_onPayloadFailure (PayloadId p) False)
             (if request_issued (send w (calls e) p) then did (HTTP_Do p) e else e))
      | FailedRetryable \<Rightarrow>
          ((None, None, r), did (LB_onPayloadFailure (PayloadId p) True) (did (HTTP_Do p) e)))"
  by (simp add: flushEventPayload_def fail_with_def reportPayloadFailure_def
      reportPayloadSuccess_def append_slice_def elems_def spec_classification_def
      request_issued_def split: dispatch.splits)

lemma flushEventPayload_step:
  assumes "flushEventPayload w p (Some s, Some f, Some r) e = (acc', e')"
  shows "\<exists>s' f' r'. acc' = (Some s', Some f', Some r')
           \<and> mset s' + mset f' + mset r' = mset s + mset f + mset r + {#PayloadId p#}"
    and "closed e' = closed e" and "options e' = options e"
    and "eventsFlushed e' = eventsFlushed e"
    and "filter per_payload_report (calls e') = filter per_payload_report (calls e)"
    and "filter aggregated_report (calls e') = filter aggregated_report (calls e)"
  using assms unfolding flushEventPayload_batched
  by (auto split: outcome.splits if_splits)

lemma flush_each_batched:
  "flush_each w ps (Some s, Some f, Some r) e = (acc', e') \<Longrightarrow>
     (\<exists>s' f' r'. acc' = (Some s', Some f', Some r')
        \<and> mset s' + mset f' + mset r' = mset s + mset f + mset r + mset (map PayloadId ps))
     \<and> closed e' = closed e \<and> options e' = options e
     \<and> eventsFlushed e' = eventsFlushed e
     \<and> filter per_payload_report (calls e') = filter per_payload_report (calls e)
     \<and> filter aggregated_report (calls e') = filter aggregated_report (calls e)"
proof (induction ps arbitrary: s f r e)
  case Nil
  then show ?case by auto
next
  case (Cons p ps)
  obtain acc1 e1 where st: "flushEventPayload w p (Some s, Some f, Some r) e = (acc1, e1)"
    by (cases "flushEventPayload w p (Some s, Some f, Some r) e")
  from flushEventPayload_step(1)[OF st] obtain s1 f1 r1 where
    acc1: "acc1 = (Some s1, Some f1, Some r1)"
    and m1: "mset s1 + mset f1 + mset r1 = mset s + mset f + mset r + {#PayloadId p#}"
    by blast
  from Cons.prems st acc1
  have rest: "flush_each w ps (Some s1, Some f1, Some r1) e1 = (acc', e')"
    by simp
  from Cons.IH[OF rest] m1 flushEventPayload_step(2-6)[OF st]
  show ?case by (auto simp: ac_simps)
qed

lemma flush_each_accepted:
  assumes ok: "\<forall>h p. \<exists>b. send w h p = Responded 201 b"
  shows "flush_each w ps (Some s, Some f, Some r) e = (acc', e') \<Longrightarrow>
     acc' = (Some (s @ map PayloadId ps), Some f, Some r)
     \<and> eventsReported e' = eventsReported e + of_nat (length ps)"
proof (induction ps arbitrary: s e)
  case Nil
  then show ?case by simp
next
  case (Cons p ps)
  from ok obtain b where b: "send w (calls e) p = Responded 201 b" by blast
  let ?e1 = "(did (HTTP_Do p) e)\<lparr>eventsReported := eventsReported e + 1\<rparr>"
  have st: "flushEventPayload w p (Some s, Some f, Some r) e
              = ((Some (s @ [PayloadId p]), Some f, Some r), ?e1)"
    by (simp add: flushEventPayload_batched b spec_classification_def)
  from Cons.prems st
  have rest: "flush_each w ps (Some (s @ [PayloadId p]), Some f, Some r) ?e1 = (acc', e')"
    by simp
  from Cons.IH[OF rest] show ?case by simp
qed

lemma flushEventPayloads_facts:
  assumes "flushEventPayloads w ps e = ((res, err), e')"
  shows "err = None"
    and "\<exists>s f r. res = \<lparr>SuccessPayloads = Some s, FailurePayloads = Some f,
                          FailureWithRetryPayloads = Some r\<rparr>
           \<and> mset s + mset f + mset r = mset (map PayloadId ps)"
    and "closed e' = closed e" and "options e' = options e"
    and "eventsFlushed e' = eventsFlushed e + of_nat (length ps)"
    and "filter per_payload_report (calls e') = filter per_payload_report (calls e)"
    and "filter aggregated_report (calls e') = filter aggregated_report (calls e)"
proof -
  let ?e0 = "e\<lparr>eventsFlushed := eventsFlushed e + of_nat (length ps)\<rparr>"
  obtain acc1 e1 where fe: "flush_each w ps (Some [], Some [], Some []) ?e0 = (acc1, e1)"
    by (cases "flush_each w ps (Some [], Some [], Some []) ?e0")
  from flush_each_batched[OF fe] obtain s f r where
    acc1: "acc1 = (Some s, Some f, Some r)"
    and m: "mset s + mset f + mset r = mset (map PayloadId ps)"
    and k: "closed e1 = closed e" "options e1 = options e"
      "eventsFlushed e1 = eventsFlushed e + of_nat (length ps)"
      "filter per_payload_report (calls e1) = filter per_payload_report (calls e)"
      "filter aggregated_report (calls e1) = filter aggregated_report (calls e)"
    by auto
  from assms fe acc1
  have eq: "res = \<lparr>SuccessPayloads = Some s, FailurePayloads = Some f,
                    FailureWithRetryPayloads = Some r\<rparr>" "err = None" "e' = e1"
    by (simp_all add: flushEventPayloads_def)
  show "err = None" by (rule eq(2))
  show "\<exists>s f r. res = \<lparr>SuccessPayloads = Some s, FailurePayloads = Some f,
                          FailureWithRetryPayloads = Some r\<rparr>
           \<and> mset s + mset f + mset r = mset (map PayloadId ps)"
    using eq(1) m by blast
  show "closed e' = closed e" "options e' = options e"
    "eventsFlushed e' = eventsFlushed e + of_nat (length ps)"
    "filter per_payload_report (calls e') = filter per_payload_report (calls e)"
    "filter aggregated_report (calls e') = filter aggregated_report (calls e)"
    using k eq(3) by simp_all
qed

lemma flush_pool_object_facts:
  assumes "flush_pool_object w object e = (err, e')"
  shows "closed e' = closed e" and "options e' = options e"
    and "filter per_payload_report (calls e') = filter per_payload_report (calls e)"
    and "filter aggregated_report (calls e') = filter aggregated_report (calls e)"
proof -
  show "closed e' = closed e"
    using assms flushEventPayloads_facts(3)
    by (fastforce simp: flush_pool_object_def split: sum.splits prod.splits)
  show "options e' = options e"
    using assms flushEventPayloads_facts(4)
    by (fastforce simp: flush_pool_object_def split: sum.splits prod.splits)
  show "filter per_payload_report (calls e') = filter per_payload_report (calls e)"
    using assms flushEventPayloads_facts(6)
    by (fastforce simp: flush_pool_object_def split: sum.splits prod.splits)
  show "filter aggregated_report (calls e') = filter aggregated_report (calls e)"
    using assms flushEventPayloads_facts(7)
    by (fastforce simp: flush_pool_object_def split: sum.splits prod.splits)
qed

lemma process_each_facts:
  "process_each (flush_pool_object w) objects e = (errs, e') \<Longrightarrow>
     closed e' = closed e \<and> options e' = options e
     \<and> filter per_payload_report (calls e') = filter per_payload_report (calls e)
     \<and> filter aggregated_report (calls e') = filter aggregated_report (calls e)"
proof (induction objects arbitrary: e errs e')
  case Nil
  then show ?case by simp
next
  case (Cons object objects)
  obtain err1 e1 where st: "flush_pool_object w object e = (err1, e1)"
    by (cases "flush_pool_object w object e")
  obtain errs2 e2 where rest: "process_each (flush_pool_object w) objects e1 = (errs2, e2)"
    by (cases "process_each (flush_pool_object w) objects e1")
  from Cons.prems st rest have "e' = e2" by simp
  with Cons.IH[OF rest] flush_pool_object_facts[OF st] show ?case by simp
qed

lemma ProcessAll_facts:
  assumes "ProcessAll w (flush_pool_object w) e = (err, e')"
  shows "closed e' = closed e" and "options e' = options e"
    and "filter per_payload_report (calls e') = filter per_payload_report (calls e)"
    and "filter aggregated_report (calls e') = filter aggregated_report (calls e)"
  using assms process_each_facts[of w "pool_all w" e]
  by (auto simp: ProcessAll_def split: prod.splits)

lemma FlushEvents_facts:
  assumes "FlushEvents w e = (err, e')"
  shows "closed e' = closed e" and "options e' = options e"
    and "filter per_payload_report (calls e') = filter per_payload_report (calls e)"
proof -
  show "closed e' = closed e"
    using assms flushEventPayloads_facts(3) ProcessAll_facts(1)
    by (fastforce simp: FlushEvents_def Let_def split: sum.splits prod.splits option.splits)
  show "options e' = options e"
    using assms flushEventPayloads_facts(4) ProcessAll_facts(2)
    by (fastforce simp: FlushEvents_def Let_def split: sum.splits prod.splits option.splits)
  show "filter per_payload_report (calls e') = filter per_payload_report (calls e)"
    using assms flushEventPayloads_facts(6) ProcessAll_facts(3)
    by (fastforce simp: FlushEvents_def Let_def split: sum.splits prod.splits option.splits)
qed

lemma FlushEvents_closed: "closed (snd (FlushEvents w e)) = closed e"
  using FlushEvents_facts(1)[of w e] by (cases "FlushEvents w e") simp

lemma FlushEvents_options: "options (snd (FlushEvents w e)) = options e"
  using FlushEvents_facts(2)[of w e] by (cases "FlushEvents w e") simp

lemma checkEventQueueSize_closed: "closed (snd (checkEventQueueSize w e)) = closed e"
proof (cases "lb_checkEventQueueSize w (calls e)")
  case (Inl err)
  then show ?thesis by (simp add: checkEventQueueSize_def)
next
  case (Inr n)
  obtain err e1 where fl: "FlushEvents w (did LB_checkEventQueueSize e) = (err, e1)"
    by (cases "FlushEvents w (did LB_checkEventQueueSize e)")
  from FlushEvents_facts(1)[OF fl] have "closed e1 = closed e" by simp
  with Inr fl show ?thesis
    by (simp add: checkEventQueueSize_def split: option.splits)
qed

lemma QueueEvent_closed: "closed (snd (QueueEvent w e user event)) = closed e"
proof -
  obtain q err e1 where ch: "checkEventQueueSize w e = ((q, err), e1)"
    by (metis surj_pair)
  from checkEventQueueSize_closed[of w e] ch have "closed e1 = closed e" by simp
  with ch show ?thesis
    by (simp add: QueueEvent_def split: sum.splits)
qed

lemma QueueAggregateEvent_closed: "closed (snd (QueueAggregateEvent w e config event)) = closed e"
proof -
  obtain q err e1 where ch: "checkEventQueueSize w e = ((q, err), e1)"
    by (metis surj_pair)
  from checkEventQueueSize_closed[of w e] ch have "closed e1 = closed e" by simp
  with ch show ?thesis
    by (simp add: QueueAggregateEvent_def Let_def)
qed

lemma perform_closed: "closed (perform w x e) = closed e"
  by (cases x) (simp_all add: QueueEvent_closed QueueAggregateEvent_closed FlushEvents_closed)

lemma perform_all_closed: "closed (perform_all w xs e) = closed e"
  by (induction xs arbitrary: e) (simp_all add: perform_closed)

lemma Close_closed: "closed (snd (Close w e))"
  by (simp add: Close_def FlushEvents_closed)

section \<open>Counters of a flush\<close>

text \<open>
  Claim C1. The claim has both counters grow by exactly N when the primary engine hands
  out N batches and the endpoint answers 201 to each. The code adds the number of batches
  to eventsFlushed twice: once in FlushEvents after the drain, and once more at the start
  of flushEventPayloads. With an empty pool, a flush of N accepted batches therefore
  raises eventsFlushed by 2 * N and eventsReported by N (as 32-bit counters). The
  instance below is the case N = 1: the counters go from (0, 0) to (2, 1).
\<close>

theorem FlushEvents_counters:
  assumes pool: "pool_all w = []"
    and drain: "lb_flushEventQueue w (calls e @ [LB_startFlushEvents]) = Inr payloads"
    and ok: "\<forall>h p. \<exists>b. send w h p = Responded 201 b"
  shows "Metrics (snd (FlushEvents w e))
           = (eventsFlushed e + 2 * of_nat (length payloads),
              eventsReported e + of_nat (length payloads))"
proof -
  let ?e1 = "did LB_flushEventQueue (did LB_startFlushEvents e)"
  let ?e2 = "?e1\<lparr>eventsFlushed := eventsFlushed ?e1 + of_nat (length payloads)\<rparr>"
  let ?e3 = "?e2\<lparr>eventsFlushed := eventsFlushed ?e2 + of_nat (length payloads)\<rparr>"
  obtain acc e4 where fe: "flush_each w payloads (Some [], Some [], Some []) ?e3 = (acc, e4)"
    by (cases "flush_each w payloads (Some [], Some [], Some []) ?e3")
  from flush_each_accepted[OF ok fe]
  have acc: "acc = (Some (map PayloadId payloads), Some [], Some [])"
    and rep: "eventsReported e4 = eventsReported e + of_nat (length payloads)"
    by simp_all
  from flush_each_batched[OF fe]
  have fl: "eventsFlushed e4 = eventsFlushed e + 2 * of_nat (length payloads)"
    by simp
  have "snd (FlushEvents w e) = did LB_finishFlushEvents
          (did (LB_HandleFlushResults \<lparr>SuccessPayloads = Some (map PayloadId payloads),
                 FailurePayloads = Some [], FailureWithRetryPayloads = Some []\<rparr>) e4)"
    using drain fe acc pool
    by (simp add: FlushEvents_def flushEventPayloads_def ProcessAll_def Let_def)
  then show ?thesis
    by (simp add: Metrics_def rep fl)
qed

theorem FlushEvents_counters_witness:
  "pool_all (accepting_world [payload1]) = []
   \<and> lb_flushEventQueue (accepting_world [payload1]) (calls new_queue @ [LB_startFlushEvents])
       = Inr [payload1]
   \<and> (\<forall>h p. \<exists>b. send (accepting_world [payload1]) h p = Responded 201 b)
   \<and> Metrics new_queue = (0, 0)
   \<and> Metrics (snd (FlushEvents (accepting_world [payload1]) new_queue)) = (2, 1)"
proof -
  have pool: "pool_all (accepting_world [payload1]) = []"
    by (simp add: accepting_world_def simple_world_def)
  have drain: "lb_flushEventQueue (accepting_world [payload1])
      (calls new_queue @ [LB_startFlushEvents]) = Inr [payload1]"
    by (simp add: accepting_world_def simple_world_def new_queue_def)
  have ok: "\<forall>h p. \<exists>b. send (accepting_world [payload1]) h p = Responded 201 b"
    by (simp add: accepting_world_def simple_world_def)
  have m: "Metrics new_queue = (0, 0)"
    by (simp add: Metrics_def new_queue_def)
  from FlushEvents_counters[OF pool drain ok] pool drain ok m show ?thesis
    by (simp add: new_queue_def)
qed

section \<open>A closed queue\<close>

text \<open>
  Claim C2. Close marks the queue closed, and no later call of QueueEvent,
  QueueAggregateEvent, FlushEvents or Metrics opens it again. Whatever calls follow Close,
  a QueueEvent after them returns the Closed error and leaves the queue as it was: in
  particular it makes no call on the engine, so the event never reaches the buffer.
\<close>

theorem QueueEvent_after_Close:
  "QueueEvent w (perform_all w ops (snd (Close w e))) user event
     = (Some ErrClosed, perform_all w ops (snd (Close w e)))"
  by (simp add: QueueEvent_def perform_all_closed Close_closed)

theorem QueueEvent_after_Close_witness:
  "QueueEvent (accepting_world [payload1])
     (perform_all (accepting_world [payload1]) [Op_FlushEvents, Op_QueueAggregateEvent ''cfg'' click]
        (snd (Close (accepting_world [payload1]) new_queue))) ''user'' click
   = (Some ErrClosed,
      perform_all (accepting_world [payload1]) [Op_FlushEvents, Op_QueueAggregateEvent ''cfg'' click]
        (snd (Close (accepting_world [payload1]) new_queue)))"
  by (rule QueueEvent_after_Close)

text \<open>
  Claim C3. The claim has QueueAggregateEvent refuse an event on a closed queue as
  QueueEvent does. QueueAggregateEvent never reads the closed flag: on a closed queue
  whose size check signals no drop, in local bucketing mode, it serialises the event and
  hands it to the engine, and returns what the engine answers. The instance below is a
  queue closed by Close with an empty engine: the call returns no error and
  queueAggregateEvent is the last call made on the engine.
\<close>

theorem QueueAggregateEvent_ignores_closed:
  assumes "closed e"
    and "checkEventQueueSize w e = ((False, None), e')"
    and "\<not> EnableCloudBucketing (options e')"
    and "marshal_event w event = Inr eventstring"
  shows "QueueAggregateEvent w e config event
           = (lb_queueAggregateEvent w (calls e') eventstring config,
              did (LB_queueAggregateEvent eventstring config) e')"
  using assms by (simp add: QueueAggregateEvent_def)

theorem QueueAggregateEvent_ignores_closed_witness:
  "closed closed_queue
   \<and> checkEventQueueSize (accepting_world []) closed_queue
       = ((False, None), did LB_checkEventQueueSize closed_queue)
   \<and> \<not> EnableCloudBucketing (options (did LB_checkEventQueueSize closed_queue))
   \<and> marshal_event (accepting_world []) click = Inr ''click''
   \<and> QueueAggregateEvent (accepting_world []) closed_queue ''cfg'' click
       = (None, did (LB_queueAggregateEvent ''click'' ''cfg'')
                  (did LB_checkEventQueueSize closed_queue))"
proof -
  have c: "closed closed_queue"
    by (simp add: closed_queue_def Close_closed)
  have o: "options closed_queue = options10_20"
    by (simp add: closed_queue_def Close_def FlushEvents_options new_queue_def)
  have q: "checkEventQueueSize (accepting_world []) closed_queue
       = ((False, None), did LB_checkEventQueueSize closed_queue)"
    by (simp add: checkEventQueueSize_def o options10_20_def accepting_world_def simple_world_def)
  have n: "\<not> EnableCloudBucketing (options (did LB_checkEventQueueSize closed_queue))"
    by (simp add: o options10_20_def)
  have m: "marshal_event (accepting_world []) click = Inr ''click''"
    by (simp add: accepting_world_def simple_world_def click_def)
  from QueueAggregateEvent_ignores_closed[OF c q n m, of "''cfg''"] c q n m show ?thesis
    by (simp add: accepting_world_def simple_world_def)
qed

section \<open>Outcomes of a flush\<close>

text \<open>
  Claim C4. For batches with distinct PayloadIds, whatever the endpoint does to each of
  them, the FlushResult of flushEventPayloads holds each PayloadId in exactly one of
  SuccessPayloads, FailurePayloads and FailureWithRetryPayloads: the three sets together
  are the PayloadIds of the batches, and no id stands twice in the three lists taken
  together.
\<close>

theorem flushEventPayloads_exactly_one_set:
  assumes "distinct (map PayloadId payloads)"
    and "flushEventPayloads w payloads e = ((result, err), e')"
  shows "(\<forall>p \<in> set payloads.
            (PayloadId p \<in> set (elems (SuccessPayloads result))
               \<and> PayloadId p \<notin> set (elems (FailurePayloads result))
               \<and> PayloadId p \<notin> set (elems (FailureWithRetryPayloads result)))
          \<or> (PayloadId p \<notin> set (elems (SuccessPayloads result))
               \<and> PayloadId p \<in> set (elems (FailurePayloads result))
               \<and> PayloadId p \<notin> set (elems (FailureWithRetryPayloads result)))
          \<or> (PayloadId p \<notin> set (elems (SuccessPayloads result))
               \<and> PayloadId p \<notin> set (elems (FailurePayloads result))
               \<and> PayloadId p \<in> set (elems (FailureWithRetryPayloads result))))
         \<and> set (elems (SuccessPayloads result)) \<union> set (elems (FailurePayloads result))
             \<union> set (elems (FailureWithRetryPayloads result)) = PayloadId ` set payloads
         \<and> distinct (elems (SuccessPayloads result) @ elems (FailurePayloads result)
                      @ elems (FailureWithRetryPayloads result))"
proof -
  from flushEventPayloads_facts(2)[OF assms(2)] obtain s f r where
    res: "result = \<lparr>SuccessPayloads = Some s, FailurePayloads = Some f,
                     FailureWithRetryPayloads = Some r\<rparr>"
    and m: "mset s + mset f + mset r = mset (map PayloadId payloads)"
    by blast
  from m have m': "mset (s @ f @ r) = mset (map PayloadId payloads)"
    by (simp add: ac_simps)
  from m' have sets: "set (s @ f @ r) = set (map PayloadId payloads)"
    by (rule mset_eq_setD)
  from m' assms(1) have dist: "distinct (s @ f @ r)"
    using mset_eq_imp_distinct_iff by blast
  have one: "\<forall>p \<in> set payloads.
      (PayloadId p \<in> set s \<and> PayloadId p \<notin> set f \<and> PayloadId p \<notin> set r)
      \<or> (PayloadId p \<notin> set s \<and> PayloadId p \<in> set f \<and> PayloadId p \<notin> set r)
      \<or> (PayloadId p \<notin> set s \<and> PayloadId p \<notin> set f \<and> PayloadId p \<in> set r)"
  proof
    fix p assume "p \<in> set payloads"
    then have "PayloadId p \<in> set (s @ f @ r)" using sets by simp
    with dist show "(PayloadId p \<in> set s \<and> PayloadId p \<notin> set f \<and> PayloadId p \<notin> set r)
      \<or> (PayloadId p \<notin> set s \<and> PayloadId p \<in> set f \<and> PayloadId p \<notin> set r)
      \<or> (PayloadId p \<notin> set s \<and> PayloadId p \<notin> set f \<and> PayloadId p \<in> set r)"
      by auto
  qed
  from one sets dist show ?thesis
    by (simp add: res elems_def Un_assoc)
qed

theorem flushEventPayloads_exactly_one_set_witness:
  "distinct (map PayloadId [payload1, payload2])
   \<and> fst (fst (flushEventPayloads mixed_world [payload1, payload2] new_queue))
       = \<lparr>SuccessPayloads = Some [''p1''], FailurePayloads = Some [],
          FailureWithRetryPayloads = Some [''p2'']\<rparr>
   \<and> set (elems (SuccessPayloads (fst (fst (flushEventPayloads mixed_world [payload1, payload2] new_queue)))))
       \<union> set (elems (FailurePayloads (fst (fst (flushEventPayloads mixed_world [payload1, payload2] new_queue)))))
       \<union> set (elems (FailureWithRetryPayloads (fst (fst (flushEventPayloads mixed_world [payload1, payload2] new_queue)))))
       = PayloadId ` set [payload1, payload2]
   \<and> distinct (elems (SuccessPayloads (fst (fst (flushEventPayloads mixed_world [payload1, payload2] new_queue))))
       @ elems (FailurePayloads (fst (fst (flushEventPayloads mixed_world [payload1, payload2] new_queue))))
       @ elems (FailureWithRetryPayloads (fst (fst (flushEventPayloads mixed_world [payload1, payload2] new_queue)))))"
proof -
  have d: "distinct (map PayloadId [payload1, payload2])"
    by (simp add: payload1_def payload2_def)
  have r: "fst (fst (flushEventPayloads mixed_world [payload1, payload2] new_queue))
       = \<lparr>SuccessPayloads = Some [''p1''], FailurePayloads = Some [],
          FailureWithRetryPayloads = Some [''p2'']\<rparr>"
    by (simp add: flushEventPayloads_def flushEventPayload_batched spec_classification_def
        mixed_world_def simple_world_def payload1_def payload2_def)
  have b: "flushEventPayloads mixed_world [payload1, payload2] new_queue
      = ((fst (fst (flushEventPayloads mixed_world [payload1, payload2] new_queue)),
          snd (fst (flushEventPayloads mixed_world [payload1, payload2] new_queue))),
         snd (flushEventPayloads mixed_world [payload1, payload2] new_queue))"
    by simp
  from flushEventPayloads_exactly_one_set[OF d b] d r show ?thesis
    by blast
qed

text \<open>
  Claim C5. flushEventPayload classifies a batch by the rules of the specification, in
  their order: a failure to serialise the body, to build the request or of the transport
  (HTTPClient.Do, or reading the response body) is a permanent failure; otherwise a status
  of 500 or more is a retryable failure; otherwise a status from 400 to 499 is a permanent
  failure; otherwise status 201 is a success and adds one to eventsReported; any other
  status is a permanent failure. With non-nil accumulators (as flushEventPayloads supplies
  them) the PayloadId is appended to the accumulator of its outcome; with nil success and
  failure accumulators the outcome goes to the engine by onPayloadSuccess or
  onPayloadFailure with the retry flag. eventsReported changes on success only.
\<close>

theorem flushEventPayload_classification:
  "flushEventPayload w p (Some s, Some f, Some r) e =
     (case spec_classification (send w (calls e) p) of
        Succeeded \<Rightarrow>
          ((Some (s @ [PayloadId p]), Some f, Some r),
           (did (HTTP_Do p) e)\<lparr>eventsReported := eventsReported e + 1\<rparr>)
      | FailedPermanent \<Rightarrow>
          ((Some s, Some (f @ [PayloadId p]), Some r),
           if request_issued (send w (calls e) p) then did (HTTP_Do p) e else e)
      | FailedRetryable \<Rightarrow>
          ((Some s, Some f, Some (r @ [PayloadId p])), did (HTTP_Do p) e))
   \<and> flushEventPayload w p (None, None, r') e =
     (case spec_classification (send w (calls e) p) of
        Succeeded \<Rightarrow>
          ((None, None, r'),
           (did (LB_onPayloadSuccess (PayloadId p)) (did (HTTP_Do p) e))
             \<lparr>eventsReported := eventsReported e + 1\<rparr>)
      | FailedPermanent \<Rightarrow>
          ((None, None, r'),
           did (LB_onPayloadFailure (PayloadId p) False)
             (if request_issued (send w (calls e) p) then did (HTTP_Do p) e else e))
      | FailedRetryable \<Rightarrow>
          ((None, None, r'), did (LB_onPayloadFailure (PayloadId p) True) (did (HTTP_Do p) e)))"
  by (simp only: flushEventPayload_batched flushEventPayload_immediate)

theorem flushEventPayload_classification_witness:
  "flushEventPayload (simple_world (\<lambda>h. 0) [] (\<lambda>p. Responded 503 ''busy'')) payload1
      (Some [], Some [], Some []) new_queue
     = ((Some [], Some [], Some [''p1'']), did (HTTP_Do payload1) new_queue)
   \<and> flushEventPayload (simple_world (\<lambda>h. 0) [] (\<lambda>p. Responded 201 [])) payload1
      (Some [], Some [], Some []) new_queue
     = ((Some [''p1''], Some [], Some []), (did (HTTP_Do payload1) new_queue)\<lparr>eventsReported := 1\<rparr>)
   \<and> flushEventPayload (simple_world (\<lambda>h. 0) [] (\<lambda>p. Responded 404 ''no'')) payload1
      (Some [], Some [], Some []) new_queue
     = ((Some [], Some [''p1''], Some []), did (HTTP_Do payload1) new_queue)"
  using flushEventPayload_classification[of "simple_world (\<lambda>h. 0) [] (\<lambda>p. Responded 503 ''busy'')"
      payload1 "[]" "[]" "[]" new_queue None]
    flushEventPayload_classification[of "simple_world (\<lambda>h. 0) [] (\<lambda>p. Responded 201 [])"
      payload1 "[]" "[]" "[]" new_queue None]
    flushEventPayload_classification[of "simple_world (\<lambda>h. 0) [] (\<lambda>p. Responded 404 ''no'')"
      payload1 "[]" "[]" "[]" new_queue None]
  by (simp add: simple_world_def spec_classification_def request_issued_def payload1_def
      new_queue_def)

text \<open>
  Claim C6, as amended. When FlushEvents handles the batches that the primary engine hands
  out, the queue makes no onPayloadSuccess and no onPayloadFailure call at all: every
  PayloadId goes into one of the three accumulators, and the queue reports them to the
  primary engine in one HandleFlushResults call, whose three lists hold the PayloadIds of
  the drained batches, each as often as it was drained.
\<close>

theorem FlushEvents_reports_aggregated:
  assumes "lb_flushEventQueue w (calls e @ [LB_startFlushEvents]) = Inr payloads"
  shows "filter per_payload_report (calls (snd (FlushEvents w e)))
           = filter per_payload_report (calls e)
         \<and> (\<exists>s f r. filter aggregated_report (calls (snd (FlushEvents w e)))
                 = filter aggregated_report (calls e)
                     @ [LB_HandleFlushResults \<lparr>SuccessPayloads = Some s, FailurePayloads = Some f,
                          FailureWithRetryPayloads = Some r\<rparr>]
               \<and> mset s + mset f + mset r = mset (map PayloadId payloads))"
proof -
  let ?e1 = "did LB_flushEventQueue (did LB_startFlushEvents e)"
  let ?e2 = "?e1\<lparr>eventsFlushed := eventsFlushed ?e1 + of_nat (length payloads)\<rparr>"
  obtain result err e3 where fp: "flushEventPayloads w payloads ?e2 = ((result, err), e3)"
    by (metis surj_pair)
  from flushEventPayloads_facts[OF fp] obtain s f r where
    err: "err = None"
    and res: "result = \<lparr>SuccessPayloads = Some s, FailurePayloads = Some f,
                FailureWithRetryPayloads = Some r\<rparr>"
    and m: "mset s + mset f + mset r = mset (map PayloadId payloads)"
    and agg3: "filter aggregated_report (calls e3) = filter aggregated_report (calls e)"
    by auto
  obtain perr e4 where pa:
    "ProcessAll w (flush_pool_object w) (did (LB_HandleFlushResults result) e3) = (perr, e4)"
    by (cases "ProcessAll w (flush_pool_object w) (did (LB_HandleFlushResults result) e3)")
  from ProcessAll_facts(4)[OF pa] agg3
  have agg4: "filter aggregated_report (calls e4)
                = filter aggregated_report (calls e) @ [LB_HandleFlushResults result]"
    by simp
  have fin: "snd (FlushEvents w e) = did LB_finishFlushEvents e4"
    using assms fp err pa by (simp add: FlushEvents_def Let_def)
  have "filter per_payload_report (calls (snd (FlushEvents w e)))
          = filter per_payload_report (calls e)"
    using FlushEvents_facts(3)[of w e] by (cases "FlushEvents w e") simp
  moreover have "filter aggregated_report (calls (snd (FlushEvents w e)))
          = filter aggregated_report (calls e) @ [LB_HandleFlushResults result]"
    by (simp add: fin agg4)
  ultimately show ?thesis using res m by blast
qed

theorem FlushEvents_reports_aggregated_witness:
  "lb_flushEventQueue mixed_world (calls new_queue @ [LB_startFlushEvents])
     = Inr [payload1, payload2]
   \<and> filter per_payload_report (calls (snd (FlushEvents mixed_world new_queue))) = []
   \<and> filter aggregated_report (calls (snd (FlushEvents mixed_world new_queue)))
       = [LB_HandleFlushResults \<lparr>SuccessPayloads = Some [''p1''], FailurePayloads = Some [],
            FailureWithRetryPayloads = Some [''p2'']\<rparr>]"
proof -
  have h: "lb_flushEventQueue mixed_world (calls new_queue @ [LB_startFlushEvents])
     = Inr [payload1, payload2]"
    by (simp add: mixed_world_def simple_world_def new_queue_def)
  have a: "filter aggregated_report (calls (snd (FlushEvents mixed_world new_queue)))
       = [LB_HandleFlushResults \<lparr>SuccessPayloads = Some [''p1''], FailurePayloads = Some [],
            FailureWithRetryPayloads = Some [''p2'']\<rparr>]"
    by (simp add: mixed_world_def simple_world_def new_queue_def payload1_def payload2_def
        FlushEvents_def flushEventPayloads_def flushEventPayload_batched spec_classification_def
        ProcessAll_def Let_def)
  from FlushEvents_reports_aggregated[OF h] h a show ?thesis
    by (simp add: new_queue_def)
qed

text \<open>
  The claim as stated (each outcome of the primary engine's batches is reported one
  payload at a time by onPayloadSuccess or onPayloadFailure, and not by an aggregated
  report) fails: with one batch p1 that the endpoint accepts, the calls of a flush are the
  drain, the request, one HandleFlushResults with p1 among the successes, and the end of
  the flush; onPayloadSuccess is not among them.
\<close>

theorem FlushEvents_immediate_mode_counterexample:
  "calls (snd (FlushEvents (accepting_world [payload1]) new_queue))
     = [LB_startFlushEvents, LB_flushEventQueue, HTTP_Do payload1,
        LB_HandleFlushResults \<lparr>SuccessPayloads = Some [''p1''], FailurePayloads = Some [],
          FailureWithRetryPayloads = Some []\<rparr>,
        LB_finishFlushEvents]
   \<and> LB_onPayloadSuccess ''p1'' \<notin> set (calls (snd (FlushEvents (accepting_world [payload1]) new_queue)))"
  by (simp add: accepting_world_def simple_world_def new_queue_def payload1_def FlushEvents_def
      flushEventPayloads_def flushEventPayload_batched spec_classification_def ProcessAll_def
      Let_def)

section \<open>The size check\<close>

text \<open>
  Claim C7, as amended. When the engine answers the size query with a count,
  checkEventQueueSize triggers a flush exactly when that count is at or above
  FlushEventQueueSize, and it signals drop exactly when the count is at or above
  FlushEventQueueSize and either that flush returned an error or the same count, read
  before the flush and not read again, is at or above MaxEventQueueSize.
\<close>

theorem checkEventQueueSize_drop_rule:
  assumes "lb_checkEventQueueSize w (calls e) = Inr queueSize"
  shows "fst (fst (checkEventQueueSize w e))
           = (queueSize \<ge> FlushEventQueueSize (options e)
              \<and> (fst (FlushEvents w (did LB_checkEventQueueSize e)) \<noteq> None
                 \<or> queueSize \<ge> MaxEventQueueSize (options e)))
         \<and> snd (checkEventQueueSize w e)
           = (if queueSize \<ge> FlushEventQueueSize (options e)
              then snd (FlushEvents w (did LB_checkEventQueueSize e))
              else did LB_checkEventQueueSize e)"
proof -
  obtain err e1 where fl: "FlushEvents w (did LB_checkEventQueueSize e) = (err, e1)"
    by (cases "FlushEvents w (did LB_checkEventQueueSize e)")
  from FlushEvents_facts(2)[OF fl] have "options e1 = options e" by simp
  with assms fl show ?thesis
    by (simp add: checkEventQueueSize_def split: option.splits)
qed

theorem checkEventQueueSize_drop_rule_witness:
  "lb_checkEventQueueSize draining_world (calls new_queue) = Inr 25
   \<and> fst (fst (checkEventQueueSize draining_world new_queue))
   \<and> fst (FlushEvents draining_world (did LB_checkEventQueueSize new_queue)) = None
   \<and> MaxEventQueueSize (options new_queue) \<le> 25
   \<and> snd (checkEventQueueSize draining_world new_queue)
       = snd (FlushEvents draining_world (did LB_checkEventQueueSize new_queue))"
proof -
  have h: "lb_checkEventQueueSize draining_world (calls new_queue) = Inr 25"
    by (simp add: draining_world_def simple_world_def new_queue_def)
  have o: "FlushEventQueueSize (options new_queue) = 10" "MaxEventQueueSize (options new_queue) = 20"
    by (simp_all add: new_queue_def options10_20_def)
  have f: "fst (FlushEvents draining_world (did LB_checkEventQueueSize new_queue)) = None"
    by (simp add: draining_world_def simple_world_def new_queue_def
      FlushEvents_def flushEventPayloads_def ProcessAll_def Let_def)
  from checkEventQueueSize_drop_rule[OF h] h o f show ?thesis by simp
qed

text \<open>
  The claim as stated (drop is signalled exactly when the count measured after the flush
  is still at or above the hard cap) fails: with thresholds 10 and 20 and an engine that
  holds 25 events before the flush and none after it, the flush succeeds, a size query
  after it answers 0, and checkEventQueueSize still signals drop.
\<close>

theorem checkEventQueueSize_post_flush_counterexample:
  "fst (checkEventQueueSize draining_world new_queue) = (True, None)
   \<and> lb_checkEventQueueSize draining_world
         (calls (snd (checkEventQueueSize draining_world new_queue))) = Inr 0
   \<and> MaxEventQueueSize (options (snd (checkEventQueueSize draining_world new_queue))) = 20"
  by (simp add: draining_world_def simple_world_def new_queue_def options10_20_def
      checkEventQueueSize_def FlushEvents_def flushEventPayloads_def ProcessAll_def Let_def)

section \<open>The retrying request executor\<close>

lemma request_attempt_calls:
  "request_attempt cw attempt s = ((cont, err), s') \<Longrightarrow>
     attempts_made (requests s') \<le> attempts_made (requests s) + 1 \<and> (cont = (attempt \<le> 5) \<or> \<not> cont)"
  by (auto simp: request_attempt_def attempts_made_def split: api_result.splits if_splits)

declare try_Do_from.simps [simp del]

lemma try_Do_from_attempts:
  "attempt \<le> 6 \<Longrightarrow> try_Do_from (request_attempt cw) attempt s = (err, s') \<Longrightarrow>
     attempts_made (requests s') \<le> attempts_made (requests s) + nat (7 - attempt)"
proof (induction "request_attempt cw" attempt s arbitrary: err s' rule: try_Do_from.induct)
  case (1 attempt s)
  obtain cont err1 s1 where st: "request_attempt cw attempt s = ((cont, err1), s1)"
    by (metis surj_pair)
  note k = request_attempt_calls[OF st]
  have unf: "try_Do_from (request_attempt cw) attempt s =
      (if \<not> cont \<or> err1 = None then (err1, s1)
       else if attempt + 1 > MaxRetries then (Some ErrMaxRetriesReached, s1)
       else try_Do_from (request_attempt cw) (attempt + 1) s1)"
    by (subst try_Do_from.simps) (simp add: st)
  show ?case
  proof (cases "\<not> cont \<or> err1 = None")
    case True
    with "1.prems" unf have "s' = s1" by simp
    moreover from "1.prems"(1) have "1 \<le> nat (7 - attempt)" by simp
    ultimately show ?thesis using k by simp
  next
    case False
    with k have a5: "attempt \<le> 5" by auto
    then have nm: "\<not> attempt + 1 > MaxRetries" by (simp add: MaxRetries_def)
    from False have go: "cont" "err1 \<noteq> None" by simp_all
    have "try_Do_from (request_attempt cw) attempt s
            = try_Do_from (request_attempt cw) (attempt + 1) s1"
      using a5 by (simp add: unf go MaxRetries_def)
    with "1.prems"(2)
    have rec: "try_Do_from (request_attempt cw) (attempt + 1) s1 = (err, s')"
      by simp
    from a5 have "attempt + 1 \<le> 6" by simp
    from "1.hyps"[OF st[symmetric] refl False nm this rec]
    have "attempts_made (requests s') \<le> attempts_made (requests s1) + nat (7 - (attempt + 1))"
      by simp
    moreover from a5 have "nat (7 - (attempt + 1)) + 1 = nat (7 - attempt)" by simp
    ultimately show ?thesis using k by simp
  qed
qed

lemma performRequest_at_most_six:
  "attempts_made (snd (performRequest cw reqs)) \<le> attempts_made reqs + 6"
proof -
  obtain err s' where t: "try_Do_from (request_attempt cw) 1
      \<lparr>requests = reqs, httpResponse = None, responseBody = None\<rparr> = (err, s')"
    by (metis surj_pair)
  from try_Do_from_attempts[OF _ t] have "attempts_made (requests s') \<le> attempts_made reqs + 6"
    by simp
  with t show ?thesis
    by (simp add: performRequest_def try_Do_def split: option.splits)
qed

lemma performRequest_4xx_not_retried:
  assumes "api cw reqs = Received r body" and "StatusCode r < 500"
  shows "performRequest cw reqs
           = ((Some r, Some body, None), reqs @ [API_prepareRequest, API_callAPI])"
  using assms
  by (simp add: performRequest_def try_Do_def try_Do_from.simps request_attempt_def)

lemma request_attempt_retry:
  "retry_condition (api cw (requests s)) \<Longrightarrow> request_attempt cw attempt s = ((cont, err), s') \<Longrightarrow>
     attempts_made (requests s') = attempts_made (requests s) + 1
     \<and> cont = (attempt \<le> 5) \<and> (attempt \<le> 5 \<longrightarrow> err \<noteq> None)"
  by (auto simp: request_attempt_def attempts_made_def split: api_result.splits if_splits)

lemma try_Do_from_retries:
  assumes always: "\<And>h. retry_condition (api cw h)"
  shows "attempt \<le> 6 \<Longrightarrow> try_Do_from (request_attempt cw) attempt s = (err, s') \<Longrightarrow>
     attempts_made (requests s') = attempts_made (requests s) + nat (7 - attempt)"
proof (induction "request_attempt cw" attempt s arbitrary: err s' rule: try_Do_from.induct)
  case (1 attempt s)
  obtain cont err1 s1 where st: "request_attempt cw attempt s = ((cont, err1), s1)"
    by (metis surj_pair)
  note k = request_attempt_retry[OF always st]
  have unf: "try_Do_from (request_attempt cw) attempt s =
      (if \<not> cont \<or> err1 = None then (err1, s1)
       else if attempt + 1 > MaxRetries then (Some ErrMaxRetriesReached, s1)
       else try_Do_from (request_attempt cw) (attempt + 1) s1)"
    by (subst try_Do_from.simps) (simp add: st)
  show ?case
  proof (cases "attempt \<le> 5")
    case False
    with k have "\<not> cont" by simp
    with "1.prems" unf have "s' = s1" by simp
    moreover from False "1.prems"(1) have "nat (7 - attempt) = 1" by simp
    ultimately show ?thesis using k by simp
  next
    case True
    with k have go: "cont" "err1 \<noteq> None" by simp_all
    then have ngo: "\<not> (\<not> cont \<or> err1 = None)" by simp
    from True have nm: "\<not> attempt + 1 > MaxRetries" by (simp add: MaxRetries_def)
    have "try_Do_from (request_attempt cw) attempt s
            = try_Do_from (request_attempt cw) (attempt + 1) s1"
      using True by (simp add: unf go MaxRetries_def)
    with "1.prems"(2)
    have rec: "try_Do_from (request_attempt cw) (attempt + 1) s1 = (err, s')"
      by simp
    from True have "attempt + 1 \<le> 6" by simp
    from "1.hyps"[OF st[symmetric] refl ngo nm this rec]
    have "attempts_made (requests s') = attempts_made (requests s1) + nat (7 - (attempt + 1))"
      by simp
    moreover from True have "nat (7 - (attempt + 1)) + 1 = nat (7 - attempt)" by simp
    ultimately show ?thesis using k by simp
  qed
qed

text \<open>
  Claim C9. The claim has performRequest make at most 5 attempts. The function literal
  answers try.Do with the retry flag \<open>attempt \<le> 5\<close>, and try.Do numbers the attempts
  from 1 and reads the flag only after the attempt is made, so the sixth attempt is made
  too: when every attempt ends in a transport failure, a nil response, an unreadable body
  or a status of 500 or more, performRequest sends exactly 6 requests. The instance below
  is an API that refuses every connection (6 requests, then the error) and one that
  always answers 503 (6 requests, then the 503 response is returned).
\<close>

theorem performRequest_six_attempts:
  assumes "\<And>h. retry_condition (api cw h)"
  shows "attempts_made (snd (performRequest cw reqs)) = attempts_made reqs + 6"
proof -
  obtain err s' where t: "try_Do_from (request_attempt cw) 1
      \<lparr>requests = reqs, httpResponse = None, responseBody = None\<rparr> = (err, s')"
    by (metis surj_pair)
  from try_Do_from_retries[OF assms _ t]
  have "attempts_made (requests s') = attempts_made reqs + 6"
    by simp
  with t show ?thesis
    by (simp add: performRequest_def try_Do_def split: option.splits)
qed

theorem performRequest_six_attempts_witness:
  "(\<forall>h. retry_condition (api unreachable_cloud h))
   \<and> attempts_made (snd (performRequest unreachable_cloud [])) = 6
   \<and> fst (performRequest unreachable_cloud [])
       = (None, None, Some (ErrExternal ''connection refused''))
   \<and> (\<forall>h. retry_condition (api unavailable_cloud h))
   \<and> attempts_made (snd (performRequest unavailable_cloud [])) = 6
   \<and> fst (performRequest unavailable_cloud [])
       = (Some \<lparr>StatusCode = 503, Status = ''503 Service Unavailable''\<rparr>, Some [], None)"
proof -
  have a: "\<And>h. retry_condition (api unreachable_cloud h)"
    by (simp add: unreachable_cloud_def)
  have b: "\<And>h. retry_condition (api unavailable_cloud h)"
    by (simp add: unavailable_cloud_def)
  have ra: "fst (performRequest unreachable_cloud [])
       = (None, None, Some (ErrExternal ''connection refused''))"
    by (simp add: performRequest_def try_Do_def try_Do_from.simps request_attempt_def
      unreachable_cloud_def MaxRetries_def)
  have rb: "fst (performRequest unavailable_cloud [])
       = (Some \<lparr>StatusCode = 503, Status = ''503 Service Unavailable''\<rparr>, Some [], None)"
    by (simp add: performRequest_def try_Do_def try_Do_from.simps request_attempt_def
      unavailable_cloud_def MaxRetries_def)
  from performRequest_six_attempts[of unreachable_cloud "[]", OF a]
    performRequest_six_attempts[of unavailable_cloud "[]", OF b] a b ra rb
  show ?thesis by (simp add: attempts_made_def)
qed

section \<open>Track\<close>

text \<open>
  Claim C10. When DisableCustomEventLogging is set, Track returns (true, nil) at once for
  every user and every event: an event with an empty type is not rejected, and the client
  is left as it was, so nothing is handed to the event queue and no request is sent.
\<close>

theorem Track_custom_logging_disabled:
  "DisableCustomEventLogging (DevCycleOptions c) \<Longrightarrow> Track w cw c user event = (Some (True, None), c)"
  by (simp add: Track_def)

theorem Track_custom_logging_disabled_witness:
  "DisableCustomEventLogging (DevCycleOptions quiet_client)
   \<and> Track (accepting_world []) unreachable_cloud quiet_client ''user'' \<lparr>Type' = []\<rparr>
       = (Some (True, None), quiet_client)"
proof -
  have h: "DisableCustomEventLogging (DevCycleOptions quiet_client)"
    by (simp add: quiet_client_def)
  from Track_custom_logging_disabled[OF h] h show ?thesis by simp
qed

end
